theory Spec2Isabelle
  imports Complex_Main "HOL-Library.Word"
begin

section \<open>Strings and numbers of the runtime\<close>

text \<open>
  A JavaScript string is a sequence of UTF-16 code units. The regular expression of
  \<open>sanitizeFileName\<close> has no \<open>u\<close> flag, so it works on code units, and so does this model.
  \<open>js\<close> embeds an ASCII literal.
\<close>

type_synonym jschar = "16 word"
type_synonym jsstring = "jschar list"
type_synonym bytes = "8 word list"

definition js :: "string \<Rightarrow> jsstring" where
  "js s = map of_char s"

text \<open>
  Number-to-string conversion of an integer, as a template literal does it. Every integer
  that the program prints (a clock reading of \<open>Date.now()\<close>, an array length) is below
  \<open>10^21\<close> in absolute value, where the conversion is the plain decimal numeral.
\<close>

function digits_of :: "int \<Rightarrow> jsstring" where
  "digits_of n =
     (if n < 10 then [48 + word_of_int n]
      else digits_of (n div 10) @ [48 + word_of_int (n mod 10)])"
  by pat_completeness auto
termination
  by (relation "measure nat") auto

declare digits_of.simps [simp del]

definition toString_int :: "int \<Rightarrow> jsstring" where
  "toString_int i = (if i < 0 then js ''-'' @ digits_of (- i) else digits_of i)"

text \<open>
  A Number is an IEEE 754 binary64 value. The finite ones are carried by the rational they
  denote (the two zeros are identified: nothing below divides or inspects the sign of a
  zero). \<open>double_round\<close> is rounding to nearest, ties to even, with gradual underflow and
  overflow to infinity; \<open>floor_log2\<close> is the binary exponent of a positive rational. A clock
  reading of \<open>Date.now()\<close> is an integer of at most \<open>8.64 * 10^15\<close> in absolute value,
  which binary64 holds exactly.
\<close>

datatype jsnum = NaN | PosInf | NegInf | Fin rat

function ilog2 :: "int \<Rightarrow> int" where
  "ilog2 n = (if n < 2 then 0 else 1 + ilog2 (n div 2))"
  by pat_completeness auto
termination
  by (relation "measure nat") auto

declare ilog2.simps [simp del]

definition pow2 :: "int \<Rightarrow> rat" where
  "pow2 k = (if 0 \<le> k then 2 ^ nat k else 1 / 2 ^ nat (- k))"

definition floor_log2 :: "rat \<Rightarrow> int" where
  "floor_log2 a =
     (let (n, d) = quotient_of a;
          k = ilog2 n - ilog2 d
      in if pow2 k \<le> a then k else k - 1)"

definition round_half_even :: "rat \<Rightarrow> int" where
  "round_half_even x =
     (let f = \<lfloor>x\<rfloor>; r = x - of_int f
      in if r < 1 / 2 then f
         else if 1 / 2 < r then f + 1
         else if even f then f else f + 1)"

definition double_round :: "rat \<Rightarrow> jsnum" where
  "double_round q =
     (if q = 0 then Fin 0
      else
        let a = \<bar>q\<bar>;
            e = max (floor_log2 a) (- 1022);
            u = pow2 (e - 52);
            m = round_half_even (a / u);
            r = of_int m * u
        in if 1024 \<le> e \<or> (e = 1023 \<and> m = 2 ^ 53) then (if q < 0 then NegInf else PosInf)
           else Fin (if q < 0 then - r else r))"

definition js_sign :: "jsnum \<Rightarrow> int" where
  "js_sign a =
     (case a of
        NaN \<Rightarrow> 0
      | PosInf \<Rightarrow> 1
      | NegInf \<Rightarrow> - 1
      | Fin x \<Rightarrow> if x < 0 then - 1 else if x = 0 then 0 else 1)"

definition js_neg :: "jsnum \<Rightarrow> jsnum" where
  "js_neg a = (case a of NaN \<Rightarrow> NaN | PosInf \<Rightarrow> NegInf | NegInf \<Rightarrow> PosInf | Fin x \<Rightarrow> Fin (- x))"

definition js_mul :: "jsnum \<Rightarrow> jsnum \<Rightarrow> jsnum" where
  "js_mul a b =
     (case (a, b) of
        (Fin x, Fin y) \<Rightarrow> double_round (x * y)
      | _ \<Rightarrow>
          if a = NaN \<or> b = NaN then NaN
          else let s = js_sign a * js_sign b
               in if s = 0 then NaN else if s < 0 then NegInf else PosInf)"

definition js_sub :: "jsnum \<Rightarrow> jsnum \<Rightarrow> jsnum" where
  "js_sub a b =
     (case (a, b) of
        (Fin x, Fin y) \<Rightarrow> double_round (x - y)
      | (NaN, _) \<Rightarrow> NaN
      | (_, NaN) \<Rightarrow> NaN
      | (PosInf, PosInf) \<Rightarrow> NaN
      | (NegInf, NegInf) \<Rightarrow> NaN
      | (PosInf, _) \<Rightarrow> PosInf
      | (NegInf, _) \<Rightarrow> NegInf
      | (Fin x, PosInf) \<Rightarrow> NegInf
      | (Fin x, NegInf) \<Rightarrow> PosInf)"

definition js_gt :: "jsnum \<Rightarrow> jsnum \<Rightarrow> bool" where
  "js_gt a b =
     (case (a, b) of
        (Fin x, Fin y) \<Rightarrow> y < x
      | (NaN, _) \<Rightarrow> False
      | (_, NaN) \<Rightarrow> False
      | (PosInf, PosInf) \<Rightarrow> False
      | (PosInf, _) \<Rightarrow> True
      | (NegInf, _) \<Rightarrow> False
      | (Fin x, PosInf) \<Rightarrow> False
      | (Fin x, NegInf) \<Rightarrow> True)"

subsection \<open>\<open>parseFloat\<close>\<close>

text \<open>
  \<open>parseFloat\<close> of the language standard: leading white space and line terminators are
  skipped, the longest prefix that is a \<open>StrDecimalLiteral\<close> is read (a sign, then
  \<open>Infinity\<close> or decimal digits with an optional fraction and an optional exponent), and
  what follows is ignored. With no such prefix the result is \<open>NaN\<close>.
\<close>

definition isStrWhiteSpaceChar :: "jschar \<Rightarrow> bool" where
  "isStrWhiteSpaceChar c \<longleftrightarrow>
     c \<in> {0x9, 0xA, 0xB, 0xC, 0xD, 0x20, 0xA0, 0x1680, 0x2028, 0x2029, 0x202F, 0x205F,
          0x3000, 0xFEFF} \<or> (0x2000 \<le> c \<and> c \<le> 0x200A)"

definition isDecimalDigit :: "jschar \<Rightarrow> bool" where
  "isDecimalDigit c \<longleftrightarrow> 0x30 \<le> c \<and> c \<le> 0x39"

definition digits_value :: "jsstring \<Rightarrow> int" where
  "digits_value ds = foldl (\<lambda>v c. 10 * v + (uint c - 48)) 0 ds"

definition pow10 :: "int \<Rightarrow> rat" where
  "pow10 k = (if 0 \<le> k then 10 ^ nat k else 1 / 10 ^ nat (- k))"

definition exponentPart :: "jsstring \<Rightarrow> int" where
  "exponentPart r =
     (case r of
        [] \<Rightarrow> 0
      | c # r1 \<Rightarrow>
          if c = 0x65 \<or> c = 0x45 then
            (case r1 of
               [] \<Rightarrow> 0
             | d # r2 \<Rightarrow>
                 if d = 0x2D then
                   (if takeWhile isDecimalDigit r2 = [] then 0
                    else - digits_value (takeWhile isDecimalDigit r2))
                 else if d = 0x2B then digits_value (takeWhile isDecimalDigit r2)
                 else digits_value (takeWhile isDecimalDigit r1))
          else 0)"

definition strUnsignedDecimalLiteral :: "jsstring \<Rightarrow> jsnum option" where
  "strUnsignedDecimalLiteral r =
     (if take 8 r = js ''Infinity'' then Some PosInf
      else
        let intDigits = takeWhile isDecimalDigit r;
            r1 = dropWhile isDecimalDigit r;
            hasDot = (case r1 of [] \<Rightarrow> False | c # _ \<Rightarrow> c = 0x2E);
            fracDigits = (if hasDot then takeWhile isDecimalDigit (tl r1) else []);
            r2 = (if hasDot then dropWhile isDecimalDigit (tl r1) else r1)
        in if intDigits = [] \<and> fracDigits = [] then None
           else Some (double_round
                  (of_int (digits_value (intDigits @ fracDigits)) *
                   pow10 (exponentPart r2 - int (length fracDigits)))))"

definition parseFloat :: "jsstring \<Rightarrow> jsnum" where
  "parseFloat inputString =
     (let trimmed = dropWhile isStrWhiteSpaceChar inputString;
          negative = (case trimmed of [] \<Rightarrow> False | c # _ \<Rightarrow> c = 0x2D);
          signed = (case trimmed of [] \<Rightarrow> False | c # _ \<Rightarrow> c = 0x2D \<or> c = 0x2B);
          rest = (if signed then tl trimmed else trimmed)
      in case strUnsignedDecimalLiteral rest of
           None \<Rightarrow> NaN
         | Some v \<Rightarrow> if negative then js_neg v else v)"

section \<open>Data\<close>

text \<open>
  A thrown value is an error object: its \<open>message\<close>, and its \<open>data\<close> when it has one (the
  platform errors of the conversation client carry \<open>data.error\<close>; a transport error and an
  \<open>Error\<close> made by \<open>new Error\<close> carry no \<open>data\<close>). \<open>err_error\<close> is \<open>None\<close> when
  \<open>data.error\<close> is not a string.
\<close>

datatype errdata = ErrData (err_error: "jsstring option")

datatype exn = Exn (exn_message: jsstring) (exn_data: "errdata option")

text \<open>The file object of the platform: \<open>name\<close>, \<open>size\<close>, \<open>url_private\<close>, \<open>mimetype\<close>.\<close>

record slack_file =
  file_name :: jsstring
  file_size :: int
  file_url_private :: jsstring
  file_mimetype :: jsstring

text \<open>An element of \<open>uploadedFiles\<close>: \<open>name\<close>, \<open>url\<close>, \<open>contentType\<close>.\<close>

record uploaded_file =
  up_name :: jsstring
  up_url :: jsstring
  up_contentType :: jsstring

text \<open>The message that attached the files: \<open>ts\<close>, \<open>user\<close>, \<open>files\<close> (which may be absent).\<close>

record message =
  msg_ts :: jsstring
  msg_user :: jsstring
  msg_files :: "slack_file list option"

text \<open>The inbound event: \<open>event_ts\<close>, \<open>file_id\<close>, \<open>channel_id\<close>.\<close>

record upload_event =
  event_ts :: jsstring
  file_id :: jsstring
  channel_id :: jsstring

text \<open>
  The answer of \<open>files.info\<close>: \<open>ok\<close>, \<open>file\<close>, and under it \<open>shares.public\<close> and
  \<open>shares.private\<close>, each a dictionary from a channel to its list of shares; every level
  may be absent. The answer of \<open>conversations.history\<close>: \<open>ok\<close> and \<open>messages\<close>.
\<close>

record share =
  share_ts :: jsstring

record shares_obj =
  shares_public :: "(jsstring \<rightharpoonup> share list) option"
  shares_private :: "(jsstring \<rightharpoonup> share list) option"

record file_obj =
  file_shares :: "shares_obj option"

record files_info =
  fi_ok :: bool
  fi_file :: "file_obj option"

record history =
  hist_ok :: bool
  hist_messages :: "message list"

text \<open>The answer of \<open>fetch\<close>: \<open>ok\<close>, and what \<open>buffer()\<close> will give (it may reject).\<close>

record http_response =
  resp_ok :: bool
  resp_buffer :: "exn + bytes"

section \<open>Effects and the world\<close>

text \<open>
  Every call that leaves the module is recorded, in order, in the \<open>trace\<close> of the state.
  The world answers a call as a function of the calls made before it, so that the same
  request may be answered differently at different times (the clock advances, a reaction
  that was never added cannot be removed). The theorems quantify over every world.
  \<open>generateFileUrl\<close> and \<open>storage.uploadToStorage\<close> belong to other modules (\<open>./utils\<close>,
  \<open>./storage\<close>); they are taken from the world as well, the first as a pure function,
  the second by the truthiness of what it resolves to.

  What is taken for granted: every call resolves or rejects (a call that never settles
  is outside the model); what is thrown is an error object; the logger does not raise;
  the invocations of the entry point run one after the other. On the last point, the code
  does not \<open>await\<close> between its test of the ledger and its write to it, so no other
  invocation can run between the two.
\<close>

datatype level = LInfo | LError

datatype logarg = LStr jsstring | LExn exn

datatype effect =
    DateNow
  | RandomBytes nat
  | Fetch jsstring jsstring
  | ResponseBuffer
  | UploadToStorage jsstring jsstring bytes jsstring
  | ReactionsAdd jsstring jsstring jsstring
  | ReactionsRemove jsstring jsstring jsstring
  | FilesInfo jsstring
  | ConversationsHistory jsstring jsstring
  | ChatPostMessage jsstring jsstring jsstring
  | Log level "logarg list"

record world =
  date_now :: "effect list \<Rightarrow> int"
  random_byte :: "effect list \<Rightarrow> nat \<Rightarrow> 8 word"
  slack_bot_token :: jsstring
  fetch :: "effect list \<Rightarrow> jsstring \<Rightarrow> exn + http_response"
  uploadToStorage :: "effect list \<Rightarrow> jsstring \<Rightarrow> jsstring \<Rightarrow> bytes \<Rightarrow> jsstring \<Rightarrow> exn + bool"
  generateFileUrl :: "jsstring \<Rightarrow> jsstring \<Rightarrow> jsstring"
  reactions_add :: "effect list \<Rightarrow> jsstring \<Rightarrow> jsstring \<Rightarrow> jsstring \<Rightarrow> exn + unit"
  reactions_remove :: "effect list \<Rightarrow> jsstring \<Rightarrow> jsstring \<Rightarrow> jsstring \<Rightarrow> exn + unit"
  files_info :: "effect list \<Rightarrow> jsstring \<Rightarrow> exn + files_info"
  conversations_history :: "effect list \<Rightarrow> jsstring \<Rightarrow> jsstring \<Rightarrow> exn + history"
  chat_postMessage :: "effect list \<Rightarrow> jsstring \<Rightarrow> jsstring \<Rightarrow> jsstring \<Rightarrow> exn + unit"

text \<open>
  The module's own state: the \<open>processedMessages\<close> map, the \<open>uploadLimit\<close> variable (unset
  until \<open>initialize\<close> has run), and the trace.
\<close>

record state =
  processedMessages :: "jsstring \<rightharpoonup> bool"
  uploadLimit :: "nat option"
  trace :: "effect list"

text \<open>
  An asynchronous function is a state transformer that returns a value or raises
  (\<open>Inl\<close>). \<open>await\<close> is sequencing; \<open>try\<close>/\<open>catch\<close> is \<open>io_catch\<close>.
\<close>

type_synonym ('s, 'a) io = "'s \<Rightarrow> (exn + 'a) \<times> 's"

definition io_return :: "'a \<Rightarrow> ('s, 'a) io" where
  "io_return x = (\<lambda>s. (Inr x, s))"

definition io_throw :: "exn \<Rightarrow> ('s, 'a) io" where
  "io_throw e = (\<lambda>s. (Inl e, s))"

definition io_bind :: "('s, 'a) io \<Rightarrow> ('a \<Rightarrow> ('s, 'b) io) \<Rightarrow> ('s, 'b) io" where
  "io_bind m f = (\<lambda>s. case m s of (Inl e, s') \<Rightarrow> (Inl e, s') | (Inr x, s') \<Rightarrow> f x s')"

definition io_catch :: "('s, 'a) io \<Rightarrow> (exn \<Rightarrow> ('s, 'a) io) \<Rightarrow> ('s, 'a) io" where
  "io_catch m h = (\<lambda>s. case m s of (Inl e, s') \<Rightarrow> h e s' | (Inr x, s') \<Rightarrow> (Inr x, s'))"

definition perform :: "effect \<Rightarrow> (effect list \<Rightarrow> exn + 'a) \<Rightarrow> (state, 'a) io" where
  "perform e answer = (\<lambda>s. (answer (trace s), s\<lparr>trace := trace s @ [e]\<rparr>))"

definition logger :: "level \<Rightarrow> logarg list \<Rightarrow> (state, unit) io" where
  "logger l args = perform (Log l args) (\<lambda>_. Inr ())"

definition Date_now :: "world \<Rightarrow> (state, int) io" where
  "Date_now w = perform DateNow (\<lambda>h. Inr (date_now w h))"

definition randomBytes :: "world \<Rightarrow> nat \<Rightarrow> (state, bytes) io" where
  "randomBytes w n = perform (RandomBytes n) (\<lambda>h. Inr (map (random_byte w h) [0..<n]))"

definition hexDigit :: "8 word \<Rightarrow> jschar" where
  "hexDigit d = (if d < 10 then 48 + ucast d else 87 + ucast d)"

definition toString_hex :: "bytes \<Rightarrow> jsstring" where
  "toString_hex b = concat (map (\<lambda>x. [hexDigit (x div 16), hexDigit (x mod 16)]) b)"

fun join :: "jsstring \<Rightarrow> jsstring list \<Rightarrow> jsstring" where
  "join sep [] = []"
| "join sep [x] = x"
| "join sep (x # y # ys) = x @ sep @ join sep (y # ys)"

section \<open>The module\<close>

definition MAX_FILE_SIZE :: int where
  "MAX_FILE_SIZE = 2 * 1024 * 1024 * 1024"

definition CONCURRENT_UPLOADS :: nat where
  "CONCURRENT_UPLOADS = 3"

definition initialize :: "state \<Rightarrow> state" where
  "initialize s = s\<lparr>uploadLimit := Some CONCURRENT_UPLOADS\<rparr>"

definition isMessageTooOld :: "world \<Rightarrow> jsstring \<Rightarrow> (state, bool) io" where
  "isMessageTooOld w eventTs =
     (let eventTime = js_mul (parseFloat eventTs) (Fin 1000)
      in io_bind (Date_now w) (\<lambda>now.
         io_return (js_gt (js_sub (Fin (of_int now)) eventTime) (Fin (24 * 60 * 60 * 1000)))))"

definition isMessageProcessed :: "jsstring \<Rightarrow> (state, bool) io" where
  "isMessageProcessed messageTs = (\<lambda>s. (Inr (processedMessages s messageTs \<noteq> None), s))"

definition markMessageAsProcessing :: "jsstring \<Rightarrow> (state, unit) io" where
  "markMessageAsProcessing messageTs =
     (\<lambda>s. (Inr (), s\<lparr>processedMessages := (processedMessages s)(messageTs \<mapsto> True)\<rparr>))"

subsection \<open>File names\<close>

text \<open>
  \<open>fileName.replace(/[^a-zA-Z0-9.-]/g, '_')\<close>: every code unit outside the class becomes
  an underscore. An empty result is falsy, and then the clock is read.
\<close>

definition isSafeChar :: "jschar \<Rightarrow> bool" where
  "isSafeChar c \<longleftrightarrow>
     (0x61 \<le> c \<and> c \<le> 0x7A) \<or> (0x41 \<le> c \<and> c \<le> 0x5A) \<or> (0x30 \<le> c \<and> c \<le> 0x39) \<or>
     c = 0x2E \<or> c = 0x2D"

definition sanitizeFileName :: "world \<Rightarrow> jsstring \<Rightarrow> (state, jsstring) io" where
  "sanitizeFileName w fileName =
     (let sanitized = map (\<lambda>c. if isSafeChar c then c else 0x5F) fileName
      in if sanitized = [] then
           io_bind (Date_now w) (\<lambda>t. io_return (js ''upload_'' @ toString_int t))
         else io_return sanitized)"

definition generateUniqueFileName :: "world \<Rightarrow> jsstring \<Rightarrow> (state, jsstring) io" where
  "generateUniqueFileName w fileName =
     io_bind (Date_now w) (\<lambda>t.
     io_bind (randomBytes w 16) (\<lambda>b.
     io_bind (sanitizeFileName w fileName) (\<lambda>sanitized.
     io_return (toString_int t @ js ''-'' @ toString_hex b @ js ''-'' @ sanitized))))"

subsection \<open>Upload\<close>

text \<open>
  \<open>uploadLimit(task)\<close>: calling the variable while it is still unset raises a
  \<open>TypeError\<close>; once set, the limiter runs the task and settles as the task does.
\<close>

definition uploadLimit_call :: "(state, 'a) io \<Rightarrow> (state, 'a) io" where
  "uploadLimit_call task =
     (\<lambda>s. case uploadLimit s of
             None \<Rightarrow> (Inl (Exn (js ''uploadLimit is not a function'') None), s)
           | Some n \<Rightarrow> task s)"

text \<open>
  The body of the \<open>for\<close> loop of \<open>processFiles\<close>, on the two arrays built so far: the
  \<open>try\<close> block with its size check (\<open>continue\<close> after the push), and the \<open>catch\<close> block.
\<close>

definition processFiles_body ::
  "world \<Rightarrow> message \<Rightarrow> slack_file \<Rightarrow> uploaded_file list \<times> jsstring list \<Rightarrow>
   (state, uploaded_file list \<times> jsstring list) io" where
  "processFiles_body w fileMessage file acc =
     (case acc of (uploadedFiles, failedFiles) \<Rightarrow>
        io_catch
          (if MAX_FILE_SIZE < file_size file then
             io_return (uploadedFiles, failedFiles @ [file_name file])
           else
             io_bind (perform (Fetch (file_url_private file) (js ''Bearer '' @ slack_bot_token w))
                        (\<lambda>h. fetch w h (file_url_private file))) (\<lambda>response.
             if \<not> resp_ok response then io_throw (Exn (js ''Download failed'') None)
             else
               io_bind (perform ResponseBuffer (\<lambda>h. resp_buffer response)) (\<lambda>buffer.
               io_bind (generateUniqueFileName w (file_name file)) (\<lambda>uniqueFileName.
               let userDir = js ''s/'' @ msg_user fileMessage in
               io_bind (uploadLimit_call
                          (perform (UploadToStorage userDir uniqueFileName buffer (file_mimetype file))
                             (\<lambda>h. uploadToStorage w h userDir uniqueFileName buffer
                                     (file_mimetype file)))) (\<lambda>success.
               if \<not> success then io_throw (Exn (js ''Upload failed'') None)
               else
                 io_return
                   (uploadedFiles @
                      [\<lparr>up_name = uniqueFileName,
                        up_url = generateFileUrl w userDir uniqueFileName,
                        up_contentType = file_mimetype file\<rparr>],
                    failedFiles))))))
          (\<lambda>error.
             io_bind (logger LError
                        [LStr (js ''Failed: '' @ file_name file @ js '' - '' @ exn_message error)])
               (\<lambda>_. io_return (uploadedFiles, failedFiles @ [file_name file]))))"

fun processFiles_loop ::
  "world \<Rightarrow> message \<Rightarrow> slack_file list \<Rightarrow> uploaded_file list \<times> jsstring list \<Rightarrow>
   (state, uploaded_file list \<times> jsstring list) io" where
  "processFiles_loop w fileMessage [] acc = io_return acc"
| "processFiles_loop w fileMessage (file # files) acc =
     io_bind (processFiles_body w fileMessage file acc)
       (\<lambda>acc'. processFiles_loop w fileMessage files acc')"

text \<open>\<open>fileMessage.files || []\<close>\<close>

definition files_of :: "message \<Rightarrow> slack_file list" where
  "files_of fileMessage = (case msg_files fileMessage of None \<Rightarrow> [] | Some fs \<Rightarrow> fs)"

definition processFiles ::
  "world \<Rightarrow> message \<Rightarrow> (state, uploaded_file list \<times> jsstring list) io" where
  "processFiles w fileMessage =
     io_bind (logger LInfo
                [LStr (js ''Processing '' @ toString_int (int (length (files_of fileMessage))) @
                       js '' files'')]) (\<lambda>_.
     io_bind (processFiles_loop w fileMessage (files_of fileMessage) ([], [])) (\<lambda>acc.
     case acc of (uploadedFiles, failedFiles) \<Rightarrow>
       io_bind (logger LInfo
                  [LStr (js ''Completed: '' @ toString_int (int (length uploadedFiles)) @
                         js '' ok, '' @ toString_int (int (length failedFiles)) @ js '' failed'')])
         (\<lambda>_. io_return (uploadedFiles, failedFiles))))"

subsection \<open>Reactions, resolution, report\<close>

definition addProcessingReaction :: "world \<Rightarrow> upload_event \<Rightarrow> message \<Rightarrow> (state, unit) io" where
  "addProcessingReaction w event fileMessage =
     io_catch
       (perform (ReactionsAdd (js ''beachball'') (msg_ts fileMessage) (channel_id event))
          (\<lambda>h. reactions_add w h (js ''beachball'') (msg_ts fileMessage) (channel_id event)))
       (\<lambda>error. logger LError [LStr (js ''Failed to add reaction:''), LStr (exn_message error)])"

definition updateReactions ::
  "world \<Rightarrow> upload_event \<Rightarrow> message \<Rightarrow> bool \<Rightarrow> (state, unit) io" where
  "updateReactions w event fileMessage success =
     io_catch
       (io_bind
          (perform (ReactionsRemove (js ''beachball'') (msg_ts fileMessage) (channel_id event))
             (\<lambda>h. reactions_remove w h (js ''beachball'') (msg_ts fileMessage) (channel_id event)))
          (\<lambda>_.
             let name = (if success then js ''white_check_mark'' else js ''x'') in
             perform (ReactionsAdd name (msg_ts fileMessage) (channel_id event))
               (\<lambda>h. reactions_add w h name (msg_ts fileMessage) (channel_id event))))
       (\<lambda>error. logger LError [LStr (js ''Failed to update reactions:''), LStr (exn_message error)])"

text \<open>
  \<open>shares?.public?.[channel] || shares?.private?.[channel]\<close>: a list that is present is
  truthy even when it is empty, so the private shares are consulted only when the public
  ones have no entry for the channel.
\<close>

definition channelShare_of :: "file_obj \<Rightarrow> jsstring \<Rightarrow> share list option" where
  "channelShare_of file channel =
     (case file_shares file of
        None \<Rightarrow> None
      | Some shares \<Rightarrow>
          (case (case shares_public shares of None \<Rightarrow> None | Some d \<Rightarrow> d channel) of
             Some l \<Rightarrow> Some l
           | None \<Rightarrow> (case shares_private shares of None \<Rightarrow> None | Some d \<Rightarrow> d channel)))"

definition findFileMessage :: "world \<Rightarrow> upload_event \<Rightarrow> (state, message option) io" where
  "findFileMessage w event =
     io_catch
       (io_bind (perform (FilesInfo (file_id event)) (\<lambda>h. files_info w h (file_id event)))
          (\<lambda>fileInfo.
             case (if fi_ok fileInfo then fi_file fileInfo else None) of
               None \<Rightarrow> io_throw (Exn (js ''Could not get file info'') None)
             | Some file \<Rightarrow>
                 (case channelShare_of file (channel_id event) of
                    None \<Rightarrow> io_throw (Exn (js ''No share info found for this channel'') None)
                  | Some [] \<Rightarrow> io_throw (Exn (js ''No share info found for this channel'') None)
                  | Some (first # _) \<Rightarrow>
                      let messageTs = share_ts first in
                      io_bind (perform (ConversationsHistory (channel_id event) messageTs)
                                 (\<lambda>h. conversations_history w h (channel_id event) messageTs))
                        (\<lambda>messageInfo.
                           case (if hist_ok messageInfo then hist_messages messageInfo else []) of
                             [] \<Rightarrow> io_throw (Exn (js ''Could not find original message'') None)
                           | m # _ \<Rightarrow> io_return (Some m)))))
       (\<lambda>error.
          io_bind (logger LError [LStr (js ''Error finding file message:''), LExn error])
            (\<lambda>_. io_return None))"

definition bullet :: jschar where
  "bullet = 0x2022"

definition newline :: jschar where
  "newline = 0x0A"

definition sendResultsMessage ::
  "world \<Rightarrow> jsstring \<Rightarrow> message \<Rightarrow> uploaded_file list \<Rightarrow> jsstring list \<Rightarrow> (state, unit) io" where
  "sendResultsMessage w channelId fileMessage uploadedFiles failedFiles =
     (let message0 = js ''Hey <@'' @ msg_user fileMessage @ js ''>, '';
          message1 =
            (if 0 < length uploadedFiles then
               message0 @
               (if length uploadedFiles = 1 then js ''here is your link'' else js ''here are your links'') @
               js '':'' @ [newline] @
               join [newline]
                 (map (\<lambda>f. [bullet] @ js '' '' @ up_name f @ js '': '' @ up_url f) uploadedFiles)
             else message0);
          message2 =
            (if 0 < length failedFiles then
               message1 @ [newline, newline] @ js ''Failed to process: '' @
               join (js '', '') failedFiles
             else message1)
      in perform (ChatPostMessage channelId (msg_ts fileMessage) message2)
           (\<lambda>h. chat_postMessage w h channelId (msg_ts fileMessage) message2))"

subsection \<open>Compensation and the entry point\<close>

text \<open>
  In the first \<open>catch\<close> block of \<open>handleError\<close> the test reads \<open>cleanupError.data.error\<close>:
  on an error object without \<open>data\<close> the read itself raises a \<open>TypeError\<close>, inside the
  \<open>catch\<close> block, and nothing around it catches that. The wording of its message is the
  engine's.
\<close>

definition TypeError_undefined_data :: exn where
  "TypeError_undefined_data =
     Exn (js ''Cannot read properties of undefined (reading '' @ [0x27] @ js ''error'' @ [0x27] @
          js '')'') None"

definition handleError ::
  "world \<Rightarrow> jsstring \<Rightarrow> message option \<Rightarrow> bool \<Rightarrow> (state, unit) io" where
  "handleError w channelId fileMessage reactionAdded =
     (case fileMessage of
        None \<Rightarrow> io_return ()
      | Some fm \<Rightarrow>
          if reactionAdded then
            io_bind
              (io_catch
                 (perform (ReactionsRemove (js ''beachball'') (msg_ts fm) channelId)
                    (\<lambda>h. reactions_remove w h (js ''beachball'') (msg_ts fm) channelId))
                 (\<lambda>cleanupError.
                    case exn_data cleanupError of
                      None \<Rightarrow> io_throw TypeError_undefined_data
                    | Some d \<Rightarrow>
                        if err_error d \<noteq> Some (js ''no_reaction'') then
                          logger LError [LStr (js ''Cleanup error:''), LExn cleanupError]
                        else io_return ()))
              (\<lambda>_.
                 io_catch
                   (perform (ReactionsAdd (js ''x'') (msg_ts fm) channelId)
                      (\<lambda>h. reactions_add w h (js ''x'') (msg_ts fm) channelId))
                   (\<lambda>cleanupError. logger LError [LStr (js ''Cleanup error:''), LExn cleanupError]))
          else io_return ())"

text \<open>
  The two local variables of \<open>handleFileUpload\<close>, which its \<open>catch\<close> block reads as they
  are when the exception arrives, are carried next to the module state while the \<open>try\<close>
  block runs.
\<close>

record locals =
  fileMessage_var :: "message option"
  reactionAdded_var :: bool

definition lift :: "(state, 'a) io \<Rightarrow> (locals \<times> state, 'a) io" where
  "lift m = (\<lambda>(l, s). case m s of (r, s') \<Rightarrow> (r, (l, s')))"

definition assign :: "(locals \<Rightarrow> locals) \<Rightarrow> (locals \<times> state, unit) io" where
  "assign f = (\<lambda>(l, s). (Inr (), (f l, s)))"

definition read_locals :: "(locals \<times> state, locals) io" where
  "read_locals = (\<lambda>(l, s). (Inr l, (l, s)))"

definition handleFileUpload_try :: "world \<Rightarrow> upload_event \<Rightarrow> (locals \<times> state, unit) io" where
  "handleFileUpload_try w event =
     io_bind (lift (isMessageTooOld w (event_ts event))) (\<lambda>tooOld.
     if tooOld then io_return ()
     else
       io_bind (lift (findFileMessage w event)) (\<lambda>found.
       io_bind (assign (\<lambda>l. l\<lparr>fileMessage_var := found\<rparr>)) (\<lambda>_.
       case found of
         None \<Rightarrow> io_return ()
       | Some fileMessage \<Rightarrow>
           io_bind (lift (isMessageProcessed (msg_ts fileMessage))) (\<lambda>processed.
           if processed then io_return ()
           else
             io_bind (lift (markMessageAsProcessing (msg_ts fileMessage))) (\<lambda>_.
             io_bind (lift (addProcessingReaction w event fileMessage)) (\<lambda>_.
             io_bind (assign (\<lambda>l. l\<lparr>reactionAdded_var := True\<rparr>)) (\<lambda>_.
             io_bind (lift (processFiles w fileMessage)) (\<lambda>result.
             case result of (uploadedFiles, failedFiles) \<Rightarrow>
               io_bind (lift (sendResultsMessage w (channel_id event) fileMessage
                                uploadedFiles failedFiles)) (\<lambda>_.
               lift (updateReactions w event fileMessage (length failedFiles = 0)))))))))))"

definition handleFileUpload_catch :: "world \<Rightarrow> upload_event \<Rightarrow> exn \<Rightarrow> (locals \<times> state, unit) io" where
  "handleFileUpload_catch w event error =
     io_bind (lift (logger LError [LStr (js ''Upload failed: '' @ exn_message error)])) (\<lambda>_.
     io_bind read_locals (\<lambda>l.
     io_bind (lift (handleError w (channel_id event) (fileMessage_var l) (reactionAdded_var l)))
       (\<lambda>_. io_throw error)))"

definition handleFileUpload :: "world \<Rightarrow> upload_event \<Rightarrow> (state, unit) io" where
  "handleFileUpload w event =
     (\<lambda>s. case io_catch (handleFileUpload_try w event) (handleFileUpload_catch w event)
                  (\<lparr>fileMessage_var = None, reactionAdded_var = False\<rparr>, s) of
             (r, (l, s')) \<Rightarrow> (r, s'))"

section \<open>Vocabulary of the specification\<close>

text \<open>
  The outcome of one file: \<open>Succeeded\<close> with the original name and the stored entry, or
  \<open>Failed\<close> with the original name. \<open>transfer\<close> is the outcome of one pass of the loop
  body, read off the arrays it leaves when it starts with empty ones; \<open>outcomes\<close> runs
  the files in input order, each in the state its predecessor left; \<open>successes\<close> and
  \<open>failures\<close> are the two partitions, each in the order of the list.
\<close>

datatype outcome = Succeeded jsstring uploaded_file | Failed jsstring

fun outcome_name :: "outcome \<Rightarrow> jsstring" where
  "outcome_name (Succeeded n u) = n"
| "outcome_name (Failed n) = n"

definition transfer :: "world \<Rightarrow> message \<Rightarrow> slack_file \<Rightarrow> state \<Rightarrow> outcome \<times> state" where
  "transfer w fileMessage file s =
     (case processFiles_body w fileMessage file ([], []) s of
        (Inr ([u], fs), s') \<Rightarrow> (Succeeded (file_name file) u, s')
      | (r, s') \<Rightarrow> (Failed (file_name file), s'))"

fun outcomes :: "world \<Rightarrow> message \<Rightarrow> slack_file list \<Rightarrow> state \<Rightarrow> outcome list" where
  "outcomes w fileMessage [] s = []"
| "outcomes w fileMessage (file # files) s =
     (case transfer w fileMessage file s of
        (out, s') \<Rightarrow> out # outcomes w fileMessage files s')"

fun successes :: "outcome list \<Rightarrow> uploaded_file list" where
  "successes [] = []"
| "successes (Succeeded n u # outs) = u # successes outs"
| "successes (Failed n # outs) = successes outs"

fun failures :: "outcome list \<Rightarrow> jsstring list" where
  "failures [] = []"
| "failures (Succeeded n u # outs) = failures outs"
| "failures (Failed n # outs) = n # failures outs"

text \<open>The state in which the loop of \<open>processFiles\<close> starts: the first log line is written.\<close>

definition loop_start :: "message \<Rightarrow> state \<Rightarrow> state" where
  "loop_start fileMessage s =
     s\<lparr>trace := trace s @
        [Log LInfo
           [LStr (js ''Processing '' @ toString_int (int (length (files_of fileMessage))) @
                  js '' files'')]]\<rparr>"

text \<open>The character class \<open>[A-Za-z0-9.-]\<close> of the specification, written out.\<close>

definition safeChars :: "jschar set" where
  "safeChars = set (js ''abcdefghijklmnopqrstuvwxyzABCDEFGHIJKLMNOPQRSTUVWXYZ0123456789.-'')"

text \<open>
  Kinds of effects: a marker is a reaction added or removed, a transfer is a download, the
  reading of its body or an upload, a report is a posted message. An effect of none of
  these kinds (a clock reading, a lookup, a log line, random bytes) is \<open>benign\<close>.
\<close>

fun is_marker :: "effect \<Rightarrow> bool" where
  "is_marker (ReactionsAdd n t c) = True"
| "is_marker (ReactionsRemove n t c) = True"
| "is_marker e = False"

fun is_transfer :: "effect \<Rightarrow> bool" where
  "is_transfer (Fetch u a) = True"
| "is_transfer ResponseBuffer = True"
| "is_transfer (UploadToStorage d n b m) = True"
| "is_transfer e = False"

fun is_report :: "effect \<Rightarrow> bool" where
  "is_report (ChatPostMessage c t m) = True"
| "is_report e = False"

definition benign :: "effect \<Rightarrow> bool" where
  "benign e \<longleftrightarrow> \<not> is_marker e \<and> \<not> is_transfer e \<and> \<not> is_report e"

text \<open>
  \<open>stale\<close>: the origin timestamp of the event is more than 24 hours older than the clock
  reading that the entry point takes first, in the arithmetic of the program (the
  timestamp parsed by \<open>parseFloat\<close> and scaled to milliseconds, both in binary64).
  \<open>resolved\<close>: the message that the lookup returns for the event, if any, when the lookup
  runs after that clock reading; \<open>after_resolution\<close>: the state the lookup leaves.
\<close>

definition stale :: "world \<Rightarrow> upload_event \<Rightarrow> state \<Rightarrow> bool" where
  "stale w event s \<longleftrightarrow>
     js_gt (js_sub (Fin (of_int (date_now w (trace s))))
              (js_mul (parseFloat (event_ts event)) (Fin 1000)))
       (Fin (24 * 60 * 60 * 1000))"

definition resolved :: "world \<Rightarrow> upload_event \<Rightarrow> state \<Rightarrow> message option" where
  "resolved w event s =
     (case fst (findFileMessage w event (s\<lparr>trace := trace s @ [DateNow]\<rparr>)) of
        Inl e \<Rightarrow> None
      | Inr found \<Rightarrow> found)"

definition after_resolution :: "world \<Rightarrow> upload_event \<Rightarrow> state \<Rightarrow> state" where
  "after_resolution w event s = snd (findFileMessage w event (s\<lparr>trace := trace s @ [DateNow]\<rparr>))"

text \<open>Admission writes the ledger entry.\<close>

definition admit :: "jsstring \<Rightarrow> state \<Rightarrow> state" where
  "admit ts s = s\<lparr>processedMessages := (processedMessages s)(ts \<mapsto> True)\<rparr>"

text \<open>
  \<open>emits P m\<close>: whatever \<open>m\<close> returns, it changes nothing of the state but the trace, which
  it extends by effects that all satisfy \<open>P\<close>.
\<close>

definition emits :: "(effect \<Rightarrow> bool) \<Rightarrow> (state, 'a) io \<Rightarrow> bool" where
  "emits P m \<longleftrightarrow> (\<forall>s. \<exists>es. snd (m s) = s\<lparr>trace := trace s @ es\<rparr> \<and> list_all P es)"

section \<open>Example worlds\<close>

text \<open>
  A message with three small files \<open>A\<close>, \<open>B\<close>, \<open>C\<close>, and a world in which every call
  succeeds except the download of \<open>B\<close>. The variants below make one collaborator fail.
\<close>

definition demo_file :: "string \<Rightarrow> int \<Rightarrow> slack_file" where
  "demo_file n sz =
     \<lparr>file_name = js n, file_size = sz, file_url_private = js ''https://files.example/'' @ js n,
      file_mimetype = js ''text/plain''\<rparr>"

definition demo_message :: message where
  "demo_message =
     \<lparr>msg_ts = js ''1700000000.000100'', msg_user = js ''U1'',
      msg_files = Some [demo_file ''A'' 10, demo_file ''B'' 10, demo_file ''C'' 10]\<rparr>"

definition demo_world :: world where
  "demo_world =
     \<lparr>date_now = (\<lambda>h. 1700000000000),
      random_byte = (\<lambda>h i. of_nat i),
      slack_bot_token = js ''xoxb-1'',
      fetch = (\<lambda>h url.
        if url = js ''https://files.example/B'' then Inl (Exn (js ''socket hang up'') None)
        else Inr \<lparr>resp_ok = True, resp_buffer = Inr [1, 2, 3]\<rparr>),
      uploadToStorage = (\<lambda>h d n b m. Inr True),
      generateFileUrl = (\<lambda>d n. js ''https://cdn.example/'' @ d @ js ''/'' @ n),
      reactions_add = (\<lambda>h n t c. Inr ()),
      reactions_remove = (\<lambda>h n t c. Inr ()),
      files_info = (\<lambda>h f. Inr
        \<lparr>fi_ok = True,
         fi_file = Some \<lparr>file_shares = Some
           \<lparr>shares_public = Some [js ''C1'' \<mapsto> [\<lparr>share_ts = js ''1700000000.000100''\<rparr>]],
            shares_private = None\<rparr>\<rparr>\<rparr>),
      conversations_history = (\<lambda>h c t. Inr \<lparr>hist_ok = True, hist_messages = [demo_message]\<rparr>),
      chat_postMessage = (\<lambda>h c t m. Inr ())\<rparr>"

definition demo_state :: state where
  "demo_state = initialize \<lparr>processedMessages = Map.empty, uploadLimit = None, trace = []\<rparr>"

definition demo_event :: upload_event where
  "demo_event = \<lparr>event_ts = js ''1700000000.000200'', file_id = js ''F1'', channel_id = js ''C1''\<rparr>"


definition odd_event :: upload_event where
  "odd_event = demo_event\<lparr>event_ts := js ''yesterday''\<rparr>"

text \<open>The lookup of the file fails.\<close>

definition lost_world :: world where
  "lost_world =
     demo_world\<lparr>files_info := (\<lambda>h f. Inl
        (Exn (js ''An API error occurred: file_not_found'')
           (Some (ErrData (Some (js ''file_not_found''))))))\<rparr>"

text \<open>The network goes away before the report: the post and the removal reject with
  transport errors, which carry no \<open>data\<close>.\<close>

definition offline_error :: exn where
  "offline_error = Exn (js ''A request error occurred: socket hang up'') None"

definition offline_world :: world where
  "offline_world =
     demo_world\<lparr>chat_postMessage := (\<lambda>h c t m. Inl offline_error),
                reactions_remove := (\<lambda>h n t c. Inl offline_error)\<rparr>"

text \<open>The in-progress reaction is not there: its removal is refused with \<open>no_reaction\<close>.\<close>

definition no_reaction_error :: exn where
  "no_reaction_error =
     Exn (js ''An API error occurred: no_reaction'') (Some (ErrData (Some (js ''no_reaction''))))"

definition unmarked_world :: world where
  "unmarked_world = demo_world\<lparr>reactions_remove := (\<lambda>h n t c. Inl no_reaction_error)\<rparr>"

section \<open>The batch\<close>

lemmas io_defs = io_bind_def io_catch_def io_return_def io_throw_def

lemma processFiles_body_acc:
  "processFiles_body w fm f (ups, fails) s =
     (case transfer w fm f s of
        (Succeeded n u, s') \<Rightarrow> (Inr (ups @ [u], fails), s')
      | (Failed n, s') \<Rightarrow> (Inr (ups, fails @ [n]), s'))"
  unfolding transfer_def processFiles_body_def io_defs logger_def perform_def
  by (auto simp: Let_def split: prod.splits sum.splits if_splits list.splits)

lemma transfer_name: "transfer w fm f s = (out, s') \<Longrightarrow> outcome_name out = file_name f"
  unfolding transfer_def
  by (auto split: prod.splits sum.splits if_splits list.splits)

lemma transfer_oversized:
  "MAX_FILE_SIZE < file_size f \<Longrightarrow> transfer w fm f s = (Failed (file_name f), s)"
  unfolding transfer_def processFiles_body_def io_defs by simp

lemma processFiles_loop_outcomes:
  "\<exists>s'. processFiles_loop w fm files (ups, fails) s =
          (Inr (ups @ successes (outcomes w fm files s), fails @ failures (outcomes w fm files s)), s')"
proof (induction files arbitrary: ups fails s)
  case Nil
  show ?case by (simp add: io_return_def)
next
  case (Cons f files)
  obtain out s1 where t: "transfer w fm f s = (out, s1)" by (cases "transfer w fm f s")
  show ?case
  proof (cases out)
    case (Succeeded n u)
    with t Cons.IH [of "ups @ [u]" fails s1] show ?thesis
      by (simp add: io_bind_def processFiles_body_acc)
  next
    case (Failed n)
    with t Cons.IH [of ups "fails @ [n]" s1] show ?thesis
      by (simp add: io_bind_def processFiles_body_acc)
  qed
qed

lemma outcomes_names: "map outcome_name (outcomes w fm files s) = map file_name files"
proof (induction files arbitrary: s)
  case Nil
  show ?case by simp
next
  case (Cons f files)
  obtain out s1 where t: "transfer w fm f s = (out, s1)" by (cases "transfer w fm f s")
  with Cons.IH [of s1] transfer_name [OF t] show ?case by simp
qed

lemma count_outcomes: "length (successes outs) + length (failures outs) = length outs"
  by (induction outs rule: successes.induct) simp_all

lemma failures_oversized:
  "f \<in> set files \<Longrightarrow> MAX_FILE_SIZE < file_size f \<Longrightarrow>
   file_name f \<in> set (failures (outcomes w fm files s))"
proof (induction files arbitrary: s)
  case Nil
  then show ?case by simp
next
  case (Cons g files)
  obtain out s1 where t: "transfer w fm g s = (out, s1)" by (cases "transfer w fm g s")
  show ?case
  proof (cases "f = g")
    case True
    with Cons.prems t show ?thesis by (auto simp: transfer_oversized)
  next
    case False
    with Cons.prems have "f \<in> set files" by simp
    from Cons.IH [OF this Cons.prems(2), of s1] t show ?thesis by (cases out) simp_all
  qed
qed

lemma processFiles_result:
  "\<exists>s'. processFiles w fm s =
          (Inr (successes (outcomes w fm (files_of fm) (loop_start fm s)),
                failures (outcomes w fm (files_of fm) (loop_start fm s))), s')"
proof -
  from processFiles_loop_outcomes [of w fm "files_of fm" "[]" "[]" "loop_start fm s"]
  obtain s2 where "processFiles_loop w fm (files_of fm) ([], []) (loop_start fm s) =
     (Inr (successes (outcomes w fm (files_of fm) (loop_start fm s)),
           failures (outcomes w fm (files_of fm) (loop_start fm s))), s2)"
    by auto
  then show ?thesis
    unfolding processFiles_def io_defs by (simp add: logger_def perform_def loop_start_def)
qed

text \<open>
  C1. For every message, \<open>processFiles\<close> returns (it does not raise), and the successes
  and the failures it returns are together as many as the files of the message: each file
  has exactly one outcome.
\<close>

theorem processFiles_one_outcome_per_file:
  "\<exists>uploadedFiles failedFiles s'.
     processFiles w fileMessage s = (Inr (uploadedFiles, failedFiles), s') \<and>
     length uploadedFiles + length failedFiles = length (files_of fileMessage) \<and>
     length (outcomes w fileMessage (files_of fileMessage) (loop_start fileMessage s)) =
       length (files_of fileMessage)"
proof -
  let ?outs = "outcomes w fileMessage (files_of fileMessage) (loop_start fileMessage s)"
  have n: "length ?outs = length (files_of fileMessage)"
    using outcomes_names [of w fileMessage "files_of fileMessage" "loop_start fileMessage s"]
    by (metis length_map)
  from processFiles_result [of w fileMessage s] obtain s' where
    "processFiles w fileMessage s = (Inr (successes ?outs, failures ?outs), s')" by blast
  with n count_outcomes [of ?outs] show ?thesis by simp
qed

theorem processFiles_one_outcome_per_file_witness:
  "\<exists>uploadedFiles failedFiles s'.
     processFiles demo_world demo_message demo_state = (Inr (uploadedFiles, failedFiles), s') \<and>
     length uploadedFiles + length failedFiles = 3"
proof -
  have three: "length (files_of demo_message) = 3"
    by (simp add: files_of_def demo_message_def)
  from processFiles_one_outcome_per_file [of demo_world demo_message demo_state]
  show ?thesis unfolding three by blast
qed

text \<open>
  C2. The successes that \<open>processFiles\<close> returns are the stored entries of the files that
  succeeded, and the failures are the names of the files that failed, each list in the
  order in which the files were given; the outcomes, in that order, belong to the files.
\<close>

theorem processFiles_preserves_input_order:
  "let outs = outcomes w fileMessage (files_of fileMessage) (loop_start fileMessage s)
   in (\<exists>s'. processFiles w fileMessage s = (Inr (successes outs, failures outs), s')) \<and>
      map outcome_name outs = map file_name (files_of fileMessage)"
  using processFiles_result [of w fileMessage s]
    outcomes_names [of w fileMessage "files_of fileMessage" "loop_start fileMessage s"]
  by (simp add: Let_def)

text \<open>Files \<open>A\<close>, \<open>B\<close>, \<open>C\<close>, of which \<open>B\<close> fails: the failures are \<open>[B]\<close>, the successes
  are the entries of \<open>A\<close> and \<open>C\<close>, in this order.\<close>

theorem processFiles_preserves_input_order_witness:
  "\<exists>s'. processFiles demo_world demo_message demo_state =
     (Inr ([\<lparr>up_name = js ''1700000000000-000102030405060708090a0b0c0d0e0f-A'',
             up_url = js ''https://cdn.example/s/U1/1700000000000-000102030405060708090a0b0c0d0e0f-A'',
             up_contentType = js ''text/plain''\<rparr>,
            \<lparr>up_name = js ''1700000000000-000102030405060708090a0b0c0d0e0f-C'',
             up_url = js ''https://cdn.example/s/U1/1700000000000-000102030405060708090a0b0c0d0e0f-C'',
             up_contentType = js ''text/plain''\<rparr>],
           [js ''B'']), s')"
proof -
  have outs: "outcomes demo_world demo_message (files_of demo_message) (loop_start demo_message demo_state) =
      [Succeeded (js ''A'')
         \<lparr>up_name = js ''1700000000000-000102030405060708090a0b0c0d0e0f-A'',
          up_url = js ''https://cdn.example/s/U1/1700000000000-000102030405060708090a0b0c0d0e0f-A'',
          up_contentType = js ''text/plain''\<rparr>,
       Failed (js ''B''),
       Succeeded (js ''C'')
         \<lparr>up_name = js ''1700000000000-000102030405060708090a0b0c0d0e0f-C'',
          up_url = js ''https://cdn.example/s/U1/1700000000000-000102030405060708090a0b0c0d0e0f-C'',
          up_contentType = js ''text/plain''\<rparr>]"
    by code_simp
  from processFiles_preserves_input_order [of demo_world demo_message demo_state]
  show ?thesis by (simp add: outs Let_def)
qed

text \<open>
  C3. A file whose declared size exceeds \<open>MAX_FILE_SIZE\<close> (2 GiB) is pushed to the
  failures by its pass of the loop, which leaves the state as it found it (no call of any
  kind is made for the file: the trace is unchanged); and its name is among the failures
  that \<open>processFiles\<close> returns.
\<close>

theorem oversized_file_fails_without_network_call:
  assumes "MAX_FILE_SIZE < file_size file"
  shows "MAX_FILE_SIZE = 2147483648 \<and>
         processFiles_body w fileMessage file (uploadedFiles, failedFiles) s =
           (Inr (uploadedFiles, failedFiles @ [file_name file]), s) \<and>
         (file \<in> set (files_of fileMessage) \<longrightarrow>
            (\<exists>ups fails s'. processFiles w fileMessage s0 = (Inr (ups, fails), s') \<and>
                             file_name file \<in> set fails))"
proof -
  have "processFiles_body w fileMessage file (uploadedFiles, failedFiles) s =
           (Inr (uploadedFiles, failedFiles @ [file_name file]), s)"
    using assms by (simp add: processFiles_body_acc transfer_oversized)
  moreover have "file \<in> set (files_of fileMessage) \<longrightarrow>
            (\<exists>ups fails s'. processFiles w fileMessage s0 = (Inr (ups, fails), s') \<and>
                             file_name file \<in> set fails)"
    using processFiles_result [of w fileMessage s0] failures_oversized [OF _ assms] by blast
  ultimately show ?thesis by (simp add: MAX_FILE_SIZE_def)
qed

theorem oversized_file_fails_without_network_call_witness:
  "MAX_FILE_SIZE < file_size (demo_file ''big.iso'' 2147483649) \<and>
   processFiles_body demo_world demo_message (demo_file ''big.iso'' 2147483649) ([], []) demo_state =
     (Inr ([], [js ''big.iso'']), demo_state)"
proof -
  have big: "MAX_FILE_SIZE < file_size (demo_file ''big.iso'' 2147483649)"
    by (simp add: MAX_FILE_SIZE_def demo_file_def)
  from oversized_file_fails_without_network_call [OF big, of demo_world demo_message "[]" "[]" demo_state]
  show ?thesis using big by (simp add: demo_file_def)
qed

section \<open>Stored names\<close>

lemma isSafeChar_iff: "isSafeChar c \<longleftrightarrow> c \<in> safeChars"
proof -
  have "isSafeChar c \<longleftrightarrow>
          (97 \<le> unat c \<and> unat c \<le> 122) \<or> (65 \<le> unat c \<and> unat c \<le> 90) \<or>
          (48 \<le> unat c \<and> unat c \<le> 57) \<or> unat c = 46 \<or> unat c = 45"
    unfolding isSafeChar_def by (simp add: word_le_nat_alt word_unat_eq_iff)
  also have "\<dots> \<longleftrightarrow> unat c \<in> unat ` safeChars"
    unfolding safeChars_def js_def
    by (simp only: list.map list.set image_insert image_empty insert_iff empty_iff) (simp, arith)
  also have "\<dots> \<longleftrightarrow> c \<in> safeChars"
    by (rule inj_image_mem_iff) (simp add: inj_on_def word_unat_eq_iff)
  finally show ?thesis .
qed

lemma hexDigit_range: "d < 16 \<Longrightarrow> hexDigit d \<in> set (js ''0123456789abcdef'')"
proof -
  assume "d < 16"
  then have "unat d < 16" by (simp add: word_less_nat_alt)
  then have "unat d \<in> {0,1,2,3,4,5,6,7,8,9,10,11,12,13,14,15}"
    by (simp only: insert_iff empty_iff) arith
  then have "d \<in> {0,1,2,3,4,5,6,7,8,9,10,11,12,13,14,15}" by (simp add: word_unat_eq_iff)
  then show ?thesis unfolding hexDigit_def js_def by auto
qed

lemma nibbles: "(x :: 8 word) div 16 < 16" "(x :: 8 word) mod 16 < 16"
proof -
  have "unat x < 256" using unsigned_less [of x, where 'a = nat] by simp
  then show "x div 16 < 16" by (simp add: word_less_nat_alt unat_div)
  show "x mod 16 < 16" by (simp add: word_less_nat_alt unat_mod)
qed

lemma toString_hex_chars: "set (toString_hex b) \<subseteq> set (js ''0123456789abcdef'')"
  unfolding toString_hex_def using hexDigit_range nibbles by auto

lemma length_toString_hex: "length (toString_hex b) = 2 * length b"
  unfolding toString_hex_def by (induction b) simp_all

lemma uint_digit:
  "0 \<le> k \<Longrightarrow> k < 10 \<Longrightarrow> uint (48 + word_of_int k :: 16 word) = 48 + k"
proof -
  assume k: "0 \<le> k" "k < 10"
  have "(48 + word_of_int k :: 16 word) = word_of_int (48 + k)" by simp
  then have "uint (48 + word_of_int k :: 16 word) = take_bit 16 (48 + k)"
    by (simp only: uint_word_of_int_eq) simp
  also from k have "\<dots> = 48 + k" by (intro take_bit_int_eq_self) simp_all
  finally show ?thesis .
qed

lemma digits_value_snoc: "digits_value (ds @ [c]) = 10 * digits_value ds + (uint c - 48)"
  by (simp add: digits_value_def)

text \<open>The decimal numeral that is printed for a clock reading reads back as the reading.\<close>

lemma digits_of_value: "0 \<le> n \<Longrightarrow> digits_value (digits_of n) = n"
proof (induction n rule: digits_of.induct)
  case (1 n)
  show ?case
  proof (cases "n < 10")
    case True
    with "1.prems" have "uint (48 + word_of_int n :: 16 word) = 48 + n"
      by (simp add: uint_digit)
    with True show ?thesis by (subst digits_of.simps) (simp add: digits_value_def)
  next
    case False
    have "0 \<le> n mod 10" "n mod 10 < 10" by simp_all
    then have "uint (48 + word_of_int (n mod 10) :: 16 word) = 48 + n mod 10"
      by (simp add: uint_digit)
    moreover from False "1.prems" "1.IH" have "digits_value (digits_of (n div 10)) = n div 10"
      by simp
    ultimately show ?thesis using False
      by (subst digits_of.simps) (simp add: digits_value_snoc)
  qed
qed

text \<open>
  C9. The stored name is the clock reading in decimal, a hyphen, the 16 random bytes as
  32 lower-case hexadecimal digits, a hyphen, and the sanitised original name: the
  original name with every code unit outside \<open>[A-Za-z0-9.-]\<close> replaced by an underscore,
  or, when the original name is empty, \<open>upload_\<close> followed by the clock reading taken at
  that moment, in decimal.
\<close>

theorem generateUniqueFileName_format:
  "\<exists>t b sanitized t' s'.
     generateUniqueFileName w fileName s =
       (Inr (toString_int t @ js ''-'' @ toString_hex b @ js ''-'' @ sanitized), s') \<and>
     t = date_now w (trace s) \<and>
     b = map (random_byte w (trace s @ [DateNow])) [0..<16] \<and> length b = 16 \<and>
     length (toString_hex b) = 32 \<and> set (toString_hex b) \<subseteq> set (js ''0123456789abcdef'') \<and>
     t' = date_now w (trace s @ [DateNow, RandomBytes 16]) \<and>
     sanitized =
       (if fileName = [] then js ''upload_'' @ toString_int t'
        else map (\<lambda>c. if c \<in> safeChars then c else of_char CHR ''_'') fileName) \<and>
     (0 \<le> t \<longrightarrow> digits_value (toString_int t) = t)"
proof -
  have u: "(of_char CHR ''_'' :: jschar) = 0x5F" by simp
  have "0 \<le> date_now w (trace s) \<longrightarrow>
        digits_value (toString_int (date_now w (trace s))) = date_now w (trace s)"
    by (simp add: toString_int_def digits_of_value)
  then show ?thesis
    unfolding generateUniqueFileName_def sanitizeFileName_def randomBytes_def Date_now_def
      perform_def io_bind_def io_return_def
    using toString_hex_chars [of "map (random_byte w (trace s @ [DateNow])) [0..<16]"]
    by (simp add: Let_def length_toString_hex isSafeChar_iff u)
qed

theorem generateUniqueFileName_format_witness:
  "fst (generateUniqueFileName demo_world (js ''my report (1).pdf'') demo_state) =
     Inr (js ''1700000000000-000102030405060708090a0b0c0d0e0f-my_report__1_.pdf'') \<and>
   fst (generateUniqueFileName demo_world [] demo_state) =
     Inr (js ''1700000000000-000102030405060708090a0b0c0d0e0f-upload_1700000000000'')"
proof -
  have b: "map (random_byte demo_world (trace demo_state @ [DateNow])) [0..<16] =
             [0, 1, 2, 3, 4, 5, 6, 7, 8, 9, 10, 11, 12, 13, 14, 15]"
    by code_simp
  have c1: "toString_int 1700000000000 @ js ''-'' @
      toString_hex [0, 1, 2, 3, 4, 5, 6, 7, 8, 9, 10, 11, 12, 13, 14, 15] @ js ''-'' @
      js ''my_report__1_.pdf'' =
      js ''1700000000000-000102030405060708090a0b0c0d0e0f-my_report__1_.pdf''"
    by code_simp
  have c2: "toString_int 1700000000000 @ js ''-'' @
      toString_hex [0, 1, 2, 3, 4, 5, 6, 7, 8, 9, 10, 11, 12, 13, 14, 15] @ js ''-'' @
      js ''upload_'' @ toString_int 1700000000000 =
      js ''1700000000000-000102030405060708090a0b0c0d0e0f-upload_1700000000000''"
    by code_simp
  have d: "date_now demo_world = (\<lambda>h. 1700000000000)"
    by (simp add: demo_world_def)
  have n: "map (\<lambda>c. if c \<in> safeChars then c else of_char CHR ''_'') (js ''my report (1).pdf'') =
             js ''my_report__1_.pdf''"
    unfolding isSafeChar_iff [symmetric] by code_simp
  have e: "js ''my report (1).pdf'' \<noteq> []"
    by (simp add: js_def)
  from generateUniqueFileName_format [of demo_world "js ''my report (1).pdf''" demo_state]
    generateUniqueFileName_format [of demo_world "[]" demo_state]
  show ?thesis
    unfolding b d by (auto simp: n e c1 c2 simp del: of_char_Char)
qed

section \<open>What the functions leave in the state\<close>

lemma emitsD:
  "emits P m \<Longrightarrow> m s = (r, s') \<Longrightarrow> \<exists>es. s' = s\<lparr>trace := trace s @ es\<rparr> \<and> list_all P es"
  unfolding emits_def by (metis snd_conv)

lemma emits_return: "emits P (io_return x)"
  unfolding emits_def io_return_def by (auto intro: exI [of _ "[]"])

lemma emits_throw: "emits P (io_throw e)"
  unfolding emits_def io_throw_def by (auto intro: exI [of _ "[]"])

lemma emits_perform: "P e \<Longrightarrow> emits P (perform e answer)"
  unfolding emits_def perform_def by (auto intro: exI [of _ "[e]"])

lemma emits_logger: "P (Log l args) \<Longrightarrow> emits P (logger l args)"
  unfolding logger_def by (rule emits_perform)

lemma emits_bind:
  assumes "emits P m" and "\<And>x. emits P (f x)"
  shows "emits P (io_bind m f)"
  unfolding emits_def
proof
  fix s
  obtain r s1 where m: "m s = (r, s1)" by (cases "m s")
  from emitsD [OF assms(1) m] obtain es where es: "s1 = s\<lparr>trace := trace s @ es\<rparr>" "list_all P es"
    by blast
  show "\<exists>es. snd (io_bind m f s) = s\<lparr>trace := trace s @ es\<rparr> \<and> list_all P es"
  proof (cases r)
    case (Inl e)
    with m es show ?thesis by (auto simp: io_bind_def)
  next
    case (Inr x)
    obtain r2 s2 where f: "f x s1 = (r2, s2)" by (cases "f x s1")
    from emitsD [OF assms(2) f] obtain es2 where
      "s2 = s1\<lparr>trace := trace s1 @ es2\<rparr>" "list_all P es2" by blast
    with es m Inr f show ?thesis
      by (auto simp: io_bind_def intro!: exI [of _ "es @ es2"])
  qed
qed

lemma emits_catch:
  assumes "emits P m" and "\<And>e. emits P (h e)"
  shows "emits P (io_catch m h)"
  unfolding emits_def
proof
  fix s
  obtain r s1 where m: "m s = (r, s1)" by (cases "m s")
  from emitsD [OF assms(1) m] obtain es where es: "s1 = s\<lparr>trace := trace s @ es\<rparr>" "list_all P es"
    by blast
  show "\<exists>es. snd (io_catch m h s) = s\<lparr>trace := trace s @ es\<rparr> \<and> list_all P es"
  proof (cases r)
    case (Inr x)
    with m es show ?thesis by (auto simp: io_catch_def)
  next
    case (Inl e)
    obtain r2 s2 where f: "h e s1 = (r2, s2)" by (cases "h e s1")
    from emitsD [OF assms(2) f] obtain es2 where
      "s2 = s1\<lparr>trace := trace s1 @ es2\<rparr>" "list_all P es2" by blast
    with es m Inl f show ?thesis
      by (auto simp: io_catch_def intro!: exI [of _ "es @ es2"])
  qed
qed

lemma emits_uploadLimit_call: "emits P task \<Longrightarrow> emits P (uploadLimit_call task)"
  unfolding emits_def uploadLimit_call_def
  by (auto split: option.splits intro: exI [of _ "[]"])

lemmas emits_intros = emits_return emits_throw emits_perform emits_logger emits_bind emits_catch
  emits_uploadLimit_call

lemma emits_Date_now: "P DateNow \<Longrightarrow> emits P (Date_now w)"
  unfolding Date_now_def by (rule emits_perform)

lemma emits_sanitizeFileName: "P DateNow \<Longrightarrow> emits P (sanitizeFileName w n)"
  unfolding sanitizeFileName_def
  by (auto intro!: emits_intros emits_Date_now simp: Let_def)

lemma emits_generateUniqueFileName:
  "P DateNow \<Longrightarrow> P (RandomBytes 16) \<Longrightarrow> emits P (generateUniqueFileName w n)"
  unfolding generateUniqueFileName_def randomBytes_def
  by (auto intro!: emits_intros emits_Date_now emits_sanitizeFileName)

lemma emits_processFiles_body: "emits (\<lambda>e. True) (processFiles_body w fm f acc)"
  unfolding processFiles_body_def
  by (auto intro!: emits_intros emits_generateUniqueFileName split: prod.splits simp: Let_def)

lemma emits_processFiles_loop: "emits (\<lambda>e. True) (processFiles_loop w fm files acc)"
  by (induction files arbitrary: acc) (auto intro!: emits_intros emits_processFiles_body)

lemma emits_processFiles: "emits (\<lambda>e. True) (processFiles w fm)"
  unfolding processFiles_def
  by (auto intro!: emits_intros emits_processFiles_loop split: prod.splits)

lemma emits_addProcessingReaction: "emits (\<lambda>e. True) (addProcessingReaction w ev fm)"
  unfolding addProcessingReaction_def by (auto intro!: emits_intros)

lemma emits_updateReactions: "emits (\<lambda>e. True) (updateReactions w ev fm b)"
  unfolding updateReactions_def by (auto intro!: emits_intros simp: Let_def)

lemma emits_sendResultsMessage: "emits (\<lambda>e. True) (sendResultsMessage w c fm ups fails)"
  unfolding sendResultsMessage_def by (auto intro!: emits_intros simp: Let_def)

lemma emits_handleError: "emits (\<lambda>e. True) (handleError w c fmo b)"
  unfolding handleError_def by (auto intro!: emits_intros split: option.splits)

text \<open>The lookup begins with \<open>files.info\<close>, and makes benign calls only.\<close>

lemma findFileMessage_effects:
  "\<exists>es. snd (findFileMessage w ev s) = s\<lparr>trace := trace s @ FilesInfo (file_id ev) # es\<rparr> \<and>
         list_all benign es"
  unfolding findFileMessage_def io_defs logger_def perform_def benign_def
  by (auto simp: Let_def split: prod.splits sum.splits option.splits list.splits if_splits)

section \<open>Functions that never raise\<close>

lemma isMessageTooOld_result:
  "isMessageTooOld w (event_ts ev) s = (Inr (stale w ev s), s\<lparr>trace := trace s @ [DateNow]\<rparr>)"
  unfolding isMessageTooOld_def Date_now_def perform_def io_defs stale_def by (simp add: Let_def)

lemma findFileMessage_returns: "\<exists>found s'. findFileMessage w ev s = (Inr found, s')"
  unfolding findFileMessage_def io_defs logger_def perform_def
  by (auto simp: Let_def split: prod.splits sum.splits option.splits list.splits if_splits)

lemma findFileMessage_resolved:
  "findFileMessage w ev (s\<lparr>trace := trace s @ [DateNow]\<rparr>) =
     (Inr (resolved w ev s), after_resolution w ev s)"
  using findFileMessage_returns [of w ev "s\<lparr>trace := trace s @ [DateNow]\<rparr>"]
  unfolding resolved_def after_resolution_def by auto

lemma after_resolution_effects:
  "\<exists>es. after_resolution w ev s = s\<lparr>trace := trace s @ DateNow # FilesInfo (file_id ev) # es\<rparr> \<and>
         list_all benign es"
  using findFileMessage_effects [of w ev "s\<lparr>trace := trace s @ [DateNow]\<rparr>"]
  unfolding after_resolution_def by auto

lemma addProcessingReaction_returns: "\<exists>s'. addProcessingReaction w ev fm s = (Inr (), s')"
  unfolding addProcessingReaction_def io_defs logger_def perform_def
  by (auto split: prod.splits sum.splits)

lemma updateReactions_returns: "\<exists>s'. updateReactions w ev fm b s = (Inr (), s')"
  unfolding updateReactions_def io_defs logger_def perform_def
  by (auto simp: Let_def split: prod.splits sum.splits)

lemma processFiles_returns: "\<exists>ups fails s'. processFiles w fm s = (Inr (ups, fails), s')"
  using processFiles_result [of w fm s] by blast

section \<open>The paths through the entry point\<close>

lemmas entry_defs = handleFileUpload_def handleFileUpload_try_def handleFileUpload_catch_def
  lift_def assign_def read_locals_def io_defs

lemma handleFileUpload_stale:
  "stale w ev s \<Longrightarrow> handleFileUpload w ev s = (Inr (), s\<lparr>trace := trace s @ [DateNow]\<rparr>)"
  unfolding entry_defs by (simp add: isMessageTooOld_result)

lemma handleFileUpload_unresolved:
  "\<not> stale w ev s \<Longrightarrow> resolved w ev s = None \<Longrightarrow>
   handleFileUpload w ev s = (Inr (), after_resolution w ev s)"
  unfolding entry_defs by (simp add: isMessageTooOld_result findFileMessage_resolved)

lemma handleFileUpload_duplicate:
  "\<not> stale w ev s \<Longrightarrow> resolved w ev s = Some m \<Longrightarrow> processedMessages s (msg_ts m) \<noteq> None \<Longrightarrow>
   handleFileUpload w ev s = (Inr (), after_resolution w ev s)"
  using after_resolution_effects [of w ev s]
  unfolding entry_defs
  by (auto simp: isMessageTooOld_result findFileMessage_resolved isMessageProcessed_def)

lemma handleFileUpload_admitted:
  assumes "\<not> stale w ev s"
      and "resolved w ev s = Some m"
      and "processedMessages s (msg_ts m) = None"
      and "addProcessingReaction w ev m (admit (msg_ts m) (after_resolution w ev s)) = (Inr (), s3)"
      and "processFiles w m s3 = (Inr (ups, fails), s4)"
      and "sendResultsMessage w (channel_id ev) m ups fails s4 = (sent, s5)"
  shows "handleFileUpload w ev s =
           (case sent of
              Inr u \<Rightarrow> updateReactions w ev m (fails = []) s5
            | Inl e \<Rightarrow>
                (case handleError w (channel_id ev) (Some m) True
                        (s5\<lparr>trace := trace s5 @
                           [Log LError [LStr (js ''Upload failed: '' @ exn_message e)]]\<rparr>) of
                   (Inl e', s6) \<Rightarrow> (Inl e', s6)
                 | (Inr u, s6) \<Rightarrow> (Inl e, s6)))"
  using assms updateReactions_returns [of w ev m "fails = []" s5]
    after_resolution_effects [of w ev s]
  unfolding entry_defs
  by (auto simp: isMessageTooOld_result findFileMessage_resolved isMessageProcessed_def
        markMessageAsProcessing_def admit_def logger_def perform_def
      split: sum.splits prod.splits)

text \<open>
  Past the staleness check, an invocation only extends the trace that the lookup left,
  and the ledger it leaves is the one it found, with the timestamp of the resolved
  message added when that was absent; this holds whether it returns or raises.
\<close>

lemma handleFileUpload_after_resolution:
  assumes fresh: "\<not> stale w ev s"
      and run: "handleFileUpload w ev s = (r, s')"
  shows "\<exists>es. trace s' = trace (after_resolution w ev s) @ es \<and> uploadLimit s' = uploadLimit s \<and>
              (case resolved w ev s of
                 None \<Rightarrow> processedMessages s' = processedMessages s
               | Some m \<Rightarrow>
                   if processedMessages s (msg_ts m) = None
                   then processedMessages s' = (processedMessages s)(msg_ts m \<mapsto> True)
                   else processedMessages s' = processedMessages s \<and> es = [] \<and> r = Inr ())"
proof -
  let ?s2 = "after_resolution w ev s"
  from after_resolution_effects [of w ev s] obtain e2 where
    e2: "?s2 = s\<lparr>trace := trace s @ DateNow # FilesInfo (file_id ev) # e2\<rparr>" by blast
  then have s2: "uploadLimit ?s2 = uploadLimit s" "processedMessages ?s2 = processedMessages s"
    by (metis state.select_convs(2) state.surjective state.update_convs(3),
        metis state.select_convs(1) state.surjective state.update_convs(3))
  show ?thesis
  proof (cases "resolved w ev s")
    case None
    with handleFileUpload_unresolved [OF fresh] run s2 show ?thesis by simp
  next
    case (Some m)
    show ?thesis
    proof (cases "processedMessages s (msg_ts m) = None")
      case False
      with handleFileUpload_duplicate [OF fresh Some] run Some s2 show ?thesis by auto
    next
      case True
      let ?a = "admit (msg_ts m) ?s2"
      obtain s3 where s3: "addProcessingReaction w ev m ?a = (Inr (), s3)"
        using addProcessingReaction_returns by blast
      obtain ups fails s4 where s4: "processFiles w m s3 = (Inr (ups, fails), s4)"
        using processFiles_returns by blast
      obtain sent s5 where s5: "sendResultsMessage w (channel_id ev) m ups fails s4 = (sent, s5)"
        by (cases "sendResultsMessage w (channel_id ev) m ups fails s4")
      from emitsD [OF emits_addProcessingReaction s3] obtain e3 where
        e3: "s3 = ?a\<lparr>trace := trace ?a @ e3\<rparr>" by blast
      from emitsD [OF emits_processFiles s4] obtain e4 where
        e4: "s4 = s3\<lparr>trace := trace s3 @ e4\<rparr>" by blast
      from emitsD [OF emits_sendResultsMessage s5] obtain e5 where
        e5: "s5 = s4\<lparr>trace := trace s4 @ e5\<rparr>" by blast
      note path = handleFileUpload_admitted [OF fresh Some True s3 s4 s5, unfolded run]
      have s5': "trace s5 = trace ?s2 @ e3 @ e4 @ e5" "uploadLimit s5 = uploadLimit s"
        "processedMessages s5 = (processedMessages s)(msg_ts m \<mapsto> True)"
        using e3 e4 e5 s2 by (simp_all add: admit_def)
      show ?thesis
      proof (cases sent)
        case (Inr u)
        with path have u: "updateReactions w ev m (fails = []) s5 = (r, s')" by simp
        from emitsD [OF emits_updateReactions u] obtain e6 where
          "s' = s5\<lparr>trace := trace s5 @ e6\<rparr>" by blast
        with s5' Some True show ?thesis by simp
      next
        case (Inl e)
        let ?s6 = "s5\<lparr>trace := trace s5 @
                     [Log LError [LStr (js ''Upload failed: '' @ exn_message e)]]\<rparr>"
        obtain r7 s7 where h: "handleError w (channel_id ev) (Some m) True ?s6 = (r7, s7)"
          by (cases "handleError w (channel_id ev) (Some m) True ?s6")
        from emitsD [OF emits_handleError h] obtain e7 where
          e7: "s7 = ?s6\<lparr>trace := trace ?s6 @ e7\<rparr>" by blast
        from path Inl h have "s' = s7" by (auto split: sum.splits)
        with e7 s5' Some True show ?thesis by simp
      qed
    qed
  qed
qed

text \<open>An invocation never removes an entry of the ledger.\<close>

lemma handleFileUpload_keeps_ledger:
  assumes "handleFileUpload w ev s = (r, s')" and "processedMessages s k \<noteq> None"
  shows "processedMessages s' k \<noteq> None"
proof (cases "stale w ev s")
  case True
  with handleFileUpload_stale [OF True] assms show ?thesis by auto
next
  case False
  from handleFileUpload_after_resolution [OF False assms(1)] obtain es where
    "trace s' = trace (after_resolution w ev s) @ es \<and> uploadLimit s' = uploadLimit s \<and>
     (case resolved w ev s of
          None \<Rightarrow> processedMessages s' = processedMessages s
        | Some m \<Rightarrow>
            if processedMessages s (msg_ts m) = None
            then processedMessages s' = (processedMessages s)(msg_ts m \<mapsto> True)
            else processedMessages s' = processedMessages s \<and> es = [] \<and> r = Inr ())" ..
  then have
    c: "case resolved w ev s of
          None \<Rightarrow> processedMessages s' = processedMessages s
        | Some m \<Rightarrow>
            if processedMessages s (msg_ts m) = None
            then processedMessages s' = (processedMessages s)(msg_ts m \<mapsto> True)
            else processedMessages s' = processedMessages s \<and> es = [] \<and> r = Inr ()"
    by simp
  show ?thesis
  proof (cases "resolved w ev s")
    case None
    with c assms(2) show ?thesis by simp
  next
    case (Some m)
    with c assms(2) show ?thesis
      by (cases "processedMessages s (msg_ts m) = None") auto
  qed
qed

text \<open>An invocation that resolves a message leaves its timestamp in the ledger.\<close>

lemma handleFileUpload_admits:
  assumes "\<not> stale w ev s" and "handleFileUpload w ev s = (r, s')" and "resolved w ev s = Some m"
  shows "processedMessages s' (msg_ts m) \<noteq> None"
proof -
  from handleFileUpload_after_resolution [OF assms(1,2)] obtain es where
    "trace s' = trace (after_resolution w ev s) @ es \<and> uploadLimit s' = uploadLimit s \<and>
     (case resolved w ev s of
          None \<Rightarrow> processedMessages s' = processedMessages s
        | Some m \<Rightarrow>
            if processedMessages s (msg_ts m) = None
            then processedMessages s' = (processedMessages s)(msg_ts m \<mapsto> True)
            else processedMessages s' = processedMessages s \<and> es = [] \<and> r = Inr ())" ..
  with assms(3) have
    c: "if processedMessages s (msg_ts m) = None
        then processedMessages s' = (processedMessages s)(msg_ts m \<mapsto> True)
        else processedMessages s' = processedMessages s \<and> es = [] \<and> r = Inr ()"
    by simp
  show ?thesis
  proof (cases "processedMessages s (msg_ts m) = None")
    case True
    with c show ?thesis by simp
  next
    case False
    with c show ?thesis by simp
  qed
qed

section \<open>Rounding\<close>

lemma ilog2_bounds: "1 \<le> n \<Longrightarrow> 0 \<le> ilog2 n \<and> 2 ^ nat (ilog2 n) \<le> n \<and> n < 2 * 2 ^ nat (ilog2 n)"
proof (induction n rule: ilog2.induct)
  case (1 n)
  show ?case
  proof (cases "n < 2")
    case True
    with "1.prems" have "n = 1" by simp
    then show ?thesis by (simp add: ilog2.simps)
  next
    case False
    then have h: "1 \<le> n div 2" by simp
    from "1.IH" [OF False h] have ih: "0 \<le> ilog2 (n div 2)"
      "2 ^ nat (ilog2 (n div 2)) \<le> n div 2" "n div 2 < 2 * 2 ^ nat (ilog2 (n div 2))" by simp_all
    have e: "ilog2 n = 1 + ilog2 (n div 2)" using False by (subst ilog2.simps) simp
    have n: "nat (1 + ilog2 (n div 2)) = Suc (nat (ilog2 (n div 2)))" using ih(1) by simp
    show ?thesis unfolding e n using ih by auto
  qed
qed

lemma pow2_powi: "pow2 k = 2 powi k"
  by (simp add: pow2_def power_int_def inverse_eq_divide power_one_over)

lemma pow2_pos: "0 < pow2 k"
  by (simp add: pow2_powi)

lemma pow2_mono: "k \<le> l \<Longrightarrow> pow2 k \<le> pow2 l"
  by (simp add: pow2_powi power_int_increasing)

lemma pow2_double: "2 * pow2 (k - 1) = pow2 k"
  by (simp add: pow2_powi power_int_diff)

lemma pow2_nat: "pow2 (int n) = 2 ^ n"
  by (simp add: pow2_def)

lemma pow2_diff: "pow2 (k - l) = pow2 k / pow2 l"
  by (simp add: pow2_powi power_int_diff)

text \<open>The binary exponent of a positive rational below \<open>2^K\<close> is below \<open>K\<close>.\<close>

lemma floor_log2_less:
  assumes "0 < a" and "a < pow2 K"
  shows "floor_log2 a < K"
proof -
  obtain n d where q: "quotient_of a = (n, d)" by (cases "quotient_of a")
  then have d: "0 < d" and a: "a = of_int n / of_int d"
    using quotient_of_denom_pos quotient_of_div by blast+
  with assms(1) have n: "0 < n" by (simp add: zero_less_divide_iff)
  let ?k = "ilog2 n - ilog2 d"
  from ilog2_bounds [of n] n have bn: "0 \<le> ilog2 n" "2 ^ nat (ilog2 n) \<le> n" by simp_all
  from ilog2_bounds [of d] d have bd: "0 \<le> ilog2 d" "d < 2 * 2 ^ nat (ilog2 d)" by simp_all
  have "pow2 (?k - 1) < a"
  proof -
    have "pow2 (?k - 1) = pow2 (ilog2 n) / pow2 (ilog2 d + 1)"
      using pow2_diff [of "ilog2 n" "ilog2 d + 1"] by (simp add: algebra_simps)
    also have "\<dots> = of_int (2 ^ nat (ilog2 n)) / of_int (2 * 2 ^ nat (ilog2 d))"
      using bn(1) bd(1) by (simp add: pow2_def nat_add_distrib)
    also have "\<dots> \<le> of_int n / of_int (2 * 2 ^ nat (ilog2 d))"
      using bn(2) by (intro divide_right_mono) (simp_all del: of_int_mult of_int_power add: of_int_le_iff)
    also have "\<dots> < of_int n / of_int d"
      using bd(2) n d by (intro divide_strict_left_mono) (simp_all del: of_int_mult of_int_power add: of_int_less_iff)
    finally show ?thesis using a by simp
  qed
  with assms(2) have "pow2 (?k - 1) < pow2 K" by simp
  then have k: "?k - 1 < K" using pow2_mono [of K "?k - 1"] by (cases "K \<le> ?k - 1") simp_all
  show ?thesis
  proof (cases "pow2 ?k \<le> a")
    case True
    with assms(2) have "pow2 ?k < pow2 K" by simp
    then have "?k < K" using pow2_mono [of K ?k] by (cases "K \<le> ?k") simp_all
    with True q show ?thesis by (simp add: floor_log2_def)
  next
    case False
    with k q show ?thesis by (simp add: floor_log2_def)
  qed
qed

lemma round_half_even_error: "\<bar>of_int (round_half_even x) - x\<bar> \<le> 1 / 2"
proof -
  let ?f = "\<lfloor>x\<rfloor>"
  have b: "of_int ?f \<le> x" "x < of_int ?f + 1" by linarith+
  consider "x - of_int ?f < 1 / 2" | "1 / 2 < x - of_int ?f" | "x - of_int ?f = 1 / 2"
    by linarith
  then show ?thesis
  proof cases
    case 1
    then have "round_half_even x = ?f" by (simp add: round_half_even_def Let_def)
    with 1 b show ?thesis by simp
  next
    case 2
    then have "round_half_even x = ?f + 1" by (simp add: round_half_even_def Let_def)
    with 2 b show ?thesis by simp
  next
    case 3
    then have "round_half_even x = ?f \<or> round_half_even x = ?f + 1"
      by (simp add: round_half_even_def Let_def)
    with 3 b show ?thesis by auto
  qed
qed

lemma abs_scaled: "0 < u \<Longrightarrow> \<bar>m * u - q\<bar> = \<bar>m - q / u\<bar> * (u :: rat)"
proof -
  assume u: "0 < u"
  then have "m * u - q = (m - q / u) * u" by (simp add: field_simps)
  then have "\<bar>m * u - q\<bar> = \<bar>m - q / u\<bar> * \<bar>u\<bar>" by (simp only: abs_mult)
  with u show ?thesis by simp
qed

text \<open>Below \<open>2^53\<close>, rounding moves a positive number by at most a half.\<close>

lemma double_round_error:
  assumes "0 < q" and "q < 2 ^ 53"
  shows "\<exists>r. double_round q = Fin r \<and> \<bar>r - q\<bar> \<le> 1 / 2"
proof -
  let ?e = "max (floor_log2 q) (- 1022)"
  let ?u = "pow2 (?e - 52)"
  let ?m = "round_half_even (q / ?u)"
  from assms(2) have "q < pow2 53" by (simp add: pow2_def)
  from floor_log2_less [OF assms(1) this] have e: "?e \<le> 52" by simp
  have u: "0 < ?u" by (rule pow2_pos)
  from e have "?u \<le> pow2 0" by (intro pow2_mono) simp
  then have u1: "?u \<le> 1" by (simp add: pow2_def)
  have "\<bar>of_int ?m * ?u - q\<bar> = \<bar>of_int ?m - q / ?u\<bar> * ?u"
    using u by (rule abs_scaled)
  also have "\<dots> \<le> 1 / 2 * ?u"
    using round_half_even_error [of "q / ?u"] u by (intro mult_right_mono) simp_all
  also have "\<dots> \<le> 1 / 2" using u1 by simp
  finally have err: "\<bar>of_int ?m * ?u - q\<bar> \<le> 1 / 2" .
  from e have ne: "\<not> 1024 \<le> ?e" "?e \<noteq> 1023" by linarith+
  from assms(1) have "double_round q = Fin (of_int ?m * ?u)"
    unfolding double_round_def Let_def using ne by (simp del: max_less_iff_conj)
  with err show ?thesis by simp
qed

section \<open>Staleness\<close>

text \<open>
  With the clock at 2023-11-15 22:13:20 UTC: an event exactly 24 hours old is not stale,
  one a millisecond older is.
\<close>

lemma stale_boundary:
  "\<not> stale (demo_world\<lparr>date_now := (\<lambda>h. 1700086400000)\<rparr>)
       (demo_event\<lparr>event_ts := js ''1700000000.000000''\<rparr>) demo_state"
  "stale (demo_world\<lparr>date_now := (\<lambda>h. 1700086400000)\<rparr>)
       (demo_event\<lparr>event_ts := js ''1699999999.999000''\<rparr>) demo_state"
  by code_simp+

text \<open>
  For timestamps and clock readings of ordinary size (below \<open>2^53\<close> milliseconds), an
  event that is older than 24 hours by two milliseconds or more is stale.
\<close>

lemma stale_if_older_by_two_milliseconds:
  assumes parsed: "parseFloat (event_ts event) = Fin t"
      and t: "0 \<le> t" "t * 1000 < 2 ^ 53"
      and now: "date_now w (trace s) < 2 ^ 53"
      and older: "24 * 60 * 60 * 1000 + 2 \<le> of_int (date_now w (trace s)) - t * 1000"
  shows "stale w event s"
proof -
  let ?now = "of_int (date_now w (trace s)) :: rat"
  obtain r1 where r1: "double_round (t * 1000) = Fin r1" "\<bar>r1 - t * 1000\<bar> \<le> 1 / 2" "0 \<le> r1 + 1 / 2"
  proof (cases "t = 0")
    case True
    then show ?thesis using that [of 0] by (simp add: double_round_def)
  next
    case False
    with t have "0 < t * 1000" by simp
    from double_round_error [OF this t(2)] t(1) show ?thesis using that by fastforce
  qed
  let ?d = "?now - r1"
  from older r1(2) have d: "86400001 + 1 / 2 \<le> ?d" by linarith
  from now have "date_now w (trace s) \<le> 2 ^ 53 - 1" by simp
  then have "?now \<le> of_int (2 ^ 53 - 1)" by (simp only: of_int_le_iff)
  then have "?now \<le> 2 ^ 53 - 1" by simp
  with r1(3) have dlt: "?d < 2 ^ 53" by linarith
  from d have "0 < ?d" by simp
  from double_round_error [OF this dlt] obtain r2 where
    r2: "double_round ?d = Fin r2" "\<bar>r2 - ?d\<bar> \<le> 1 / 2" by blast
  with d have "86400000 < r2" by linarith
  with r1(1) r2(1) parsed show ?thesis
    by (simp add: stale_def js_mul_def js_sub_def js_gt_def)
qed



text \<open>
  C10. When the origin timestamp of the event does not parse as a number, the staleness
  check returns false whatever the clock says, and the entry point goes on to the lookup
  (\<open>files.info\<close> is the next call); when the lookup resolves to a message, the timestamp
  of that message is in the ledger afterwards.
\<close>

theorem unparsable_timestamp_is_never_stale:
  assumes "parseFloat (event_ts event) = NaN"
  shows "isMessageTooOld w (event_ts event) s = (Inr False, s\<lparr>trace := trace s @ [DateNow]\<rparr>) \<and>
         (\<exists>r s' es. handleFileUpload w event s = (r, s') \<and>
            trace s' = trace s @ DateNow # FilesInfo (file_id event) # es \<and>
            (\<forall>m. resolved w event s = Some m \<longrightarrow> processedMessages s' (msg_ts m) \<noteq> None))"
proof -
  have fresh: "\<not> stale w event s"
    unfolding stale_def assms by (simp add: js_mul_def js_sub_def js_gt_def)
  obtain r s' where run: "handleFileUpload w event s = (r, s')"
    by (cases "handleFileUpload w event s")
  from handleFileUpload_after_resolution [OF fresh run] obtain es where
    t: "trace s' = trace (after_resolution w event s) @ es" by blast
  have l: "\<forall>m. resolved w event s = Some m \<longrightarrow> processedMessages s' (msg_ts m) \<noteq> None"
    using handleFileUpload_admits [OF fresh run] by blast
  from after_resolution_effects [of w event s] obtain e2 where
    "after_resolution w event s = s\<lparr>trace := trace s @ DateNow # FilesInfo (file_id event) # e2\<rparr>"
    by blast
  with t have "trace s' = trace s @ DateNow # FilesInfo (file_id event) # (e2 @ es)" by simp
  with run l fresh show ?thesis
    using isMessageTooOld_result [of w event s] by auto
qed

theorem unparsable_timestamp_is_never_stale_witness:
  "parseFloat (event_ts odd_event) = NaN \<and>
   (\<exists>r s' es. handleFileUpload demo_world odd_event demo_state = (r, s') \<and>
      trace s' = trace demo_state @ DateNow # FilesInfo (file_id odd_event) # es \<and>
      processedMessages s' (msg_ts demo_message) \<noteq> None)"
proof -
  have nan: "parseFloat (event_ts odd_event) = NaN" by code_simp
  have res: "resolved demo_world odd_event demo_state = Some demo_message" by code_simp
  from unparsable_timestamp_is_never_stale [OF nan, of demo_world demo_state] nan res
  show ?thesis by auto
qed

section \<open>Resolution and admission\<close>

text \<open>
  C7. When the lookup returns no message, the entry point returns without raising, in the
  state that the lookup left: the ledger is unchanged, and among the calls made there is
  no reaction added or removed, no download or upload, and no report.
\<close>

theorem unresolved_event_touches_nothing:
  assumes "\<not> stale w event s" and "resolved w event s = None"
  shows "handleFileUpload w event s = (Inr (), after_resolution w event s) \<and>
         (\<exists>es. after_resolution w event s = s\<lparr>trace := trace s @ es\<rparr> \<and>
               (\<forall>e \<in> set es. \<not> is_marker e \<and> \<not> is_transfer e \<and> \<not> is_report e))"
proof -
  from after_resolution_effects [of w event s] obtain es where
    "after_resolution w event s = s\<lparr>trace := trace s @ DateNow # FilesInfo (file_id event) # es\<rparr>"
    "list_all benign es" by blast
  then have "\<exists>es. after_resolution w event s = s\<lparr>trace := trace s @ es\<rparr> \<and>
               (\<forall>e \<in> set es. \<not> is_marker e \<and> \<not> is_transfer e \<and> \<not> is_report e)"
    by (intro exI [of _ "DateNow # FilesInfo (file_id event) # es"])
       (simp add: list_all_iff benign_def)
  with handleFileUpload_unresolved [OF assms] show ?thesis by simp
qed

theorem unresolved_event_touches_nothing_witness:
  "\<not> stale lost_world demo_event demo_state \<and> resolved lost_world demo_event demo_state = None \<and>
   handleFileUpload lost_world demo_event demo_state =
     (Inr (), after_resolution lost_world demo_event demo_state) \<and>
   trace (after_resolution lost_world demo_event demo_state) =
     [DateNow, FilesInfo (js ''F1''),
      Log LError [LStr (js ''Error finding file message:''),
        LExn (Exn (js ''An API error occurred: file_not_found'')
               (Some (ErrData (Some (js ''file_not_found'')))))]]"
proof -
  have fresh: "\<not> stale lost_world demo_event demo_state" by code_simp
  have none: "resolved lost_world demo_event demo_state = None" by code_simp
  have tr: "trace (after_resolution lost_world demo_event demo_state) =
     [DateNow, FilesInfo (js ''F1''),
      Log LError [LStr (js ''Error finding file message:''),
        LExn (Exn (js ''An API error occurred: file_not_found'')
               (Some (ErrData (Some (js ''file_not_found'')))))]]"
    by code_simp
  from unresolved_event_touches_nothing [OF fresh none] fresh none tr show ?thesis by simp
qed



section \<open>Markers\<close>

text \<open>
  When the removal succeeds, or is rejected with an error that carries \<open>data\<close>, the
  compensating path makes the two marker calls, once each, and the original exception is
  raised again.
\<close>

lemma compensation_when_removal_error_has_data:
  assumes raised: "handleFileUpload_try w event (\<lparr>fileMessage_var = None, reactionAdded_var = False\<rparr>, s) =
            (Inl error, (\<lparr>fileMessage_var = Some fm, reactionAdded_var = True\<rparr>, s1))"
      and has_data: "case reactions_remove w
             (trace s1 @ [Log LError [LStr (js ''Upload failed: '' @ exn_message error)]])
             (js ''beachball'') (msg_ts fm) (channel_id event) of
               Inr u \<Rightarrow> True
             | Inl cleanupError \<Rightarrow> exn_data cleanupError \<noteq> None"
  shows "\<exists>es. handleFileUpload w event s = (Inl error, s1\<lparr>trace := trace s1 @ es\<rparr>) \<and>
              filter is_marker es =
                [ReactionsRemove (js ''beachball'') (msg_ts fm) (channel_id event),
                 ReactionsAdd (js ''x'') (msg_ts fm) (channel_id event)]"
  using assms
  unfolding handleFileUpload_def handleFileUpload_catch_def handleError_def
    lift_def read_locals_def io_defs logger_def perform_def
  by (auto split: sum.splits option.splits if_splits)

text \<open>
  C5. The compensating path, as the code has it. When the \<open>try\<close> block of the entry point
  raises after the in-progress marker was set, and the removal of that marker is then
  rejected with an error that carries no \<open>data\<close>, the entry point raises a \<open>TypeError\<close>
  in place of the original exception, and the failure marker is not added: the removal is
  the last call made.
\<close>

theorem compensation_breaks_on_removal_error_without_data:
  assumes raised: "handleFileUpload_try w event (\<lparr>fileMessage_var = None, reactionAdded_var = False\<rparr>, s) =
            (Inl error, (\<lparr>fileMessage_var = Some fm, reactionAdded_var = True\<rparr>, s1))"
      and rejected: "reactions_remove w
             (trace s1 @ [Log LError [LStr (js ''Upload failed: '' @ exn_message error)]])
             (js ''beachball'') (msg_ts fm) (channel_id event) = Inl cleanupError"
      and no_data: "exn_data cleanupError = None"
  shows "handleFileUpload w event s =
           (Inl TypeError_undefined_data,
            s1\<lparr>trace := trace s1 @
               [Log LError [LStr (js ''Upload failed: '' @ exn_message error)],
                ReactionsRemove (js ''beachball'') (msg_ts fm) (channel_id event)]\<rparr>)"
  using assms
  unfolding handleFileUpload_def handleFileUpload_catch_def handleError_def
    lift_def read_locals_def io_defs logger_def perform_def
  by simp

theorem compensation_breaks_on_removal_error_without_data_witness:
  "fst (handleFileUpload_try offline_world demo_event
          (\<lparr>fileMessage_var = None, reactionAdded_var = False\<rparr>, demo_state)) = Inl offline_error \<and>
   fst (handleFileUpload offline_world demo_event demo_state) = Inl TypeError_undefined_data \<and>
   TypeError_undefined_data \<noteq> offline_error \<and>
   filter is_marker (trace (snd (handleFileUpload offline_world demo_event demo_state))) =
     [ReactionsAdd (js ''beachball'') (msg_ts demo_message) (js ''C1''),
      ReactionsRemove (js ''beachball'') (msg_ts demo_message) (js ''C1'')]"
proof -
  let ?run = "handleFileUpload_try offline_world demo_event
                (\<lparr>fileMessage_var = None, reactionAdded_var = False\<rparr>, demo_state)"
  let ?s1 = "snd (snd ?run)"
  have r1: "fst ?run = Inl offline_error" by code_simp
  have r2: "fst (snd ?run) = \<lparr>fileMessage_var = Some demo_message, reactionAdded_var = True\<rparr>"
    by code_simp
  have raised: "?run = (Inl offline_error,
                  (\<lparr>fileMessage_var = Some demo_message, reactionAdded_var = True\<rparr>, ?s1))"
    using r1 r2 by (metis prod.collapse)
  have rejected: "reactions_remove offline_world
       (trace ?s1 @ [Log LError [LStr (js ''Upload failed: '' @ exn_message offline_error)]])
       (js ''beachball'') (msg_ts demo_message) (channel_id demo_event) = Inl offline_error"
    by (simp add: offline_world_def)
  have no_data: "exn_data offline_error = None" by (simp add: offline_error_def)
  have differ: "TypeError_undefined_data \<noteq> offline_error" by code_simp
  have markers: "filter is_marker (trace (snd (handleFileUpload offline_world demo_event demo_state))) =
     [ReactionsAdd (js ''beachball'') (msg_ts demo_message) (js ''C1''),
      ReactionsRemove (js ''beachball'') (msg_ts demo_message) (js ''C1'')]"
    by code_simp
  from compensation_breaks_on_removal_error_without_data [OF raised rejected no_data]
    r1 differ markers
  show ?thesis by simp
qed

text \<open>
  C8. The transition to the terminal marker, as the code has it. The removal and the
  addition share one \<open>try\<close> block: when the removal is rejected, the rejection is logged
  and swallowed, and the terminal marker is not attempted.
\<close>

theorem updateReactions_skips_addition_when_removal_fails:
  assumes "reactions_remove w (trace s) (js ''beachball'') (msg_ts fileMessage) (channel_id event) =
             Inl error"
  shows "updateReactions w event fileMessage success s =
           (Inr (),
            s\<lparr>trace := trace s @
               [ReactionsRemove (js ''beachball'') (msg_ts fileMessage) (channel_id event),
                Log LError [LStr (js ''Failed to update reactions:''), LStr (exn_message error)]]\<rparr>)"
  using assms unfolding updateReactions_def io_defs logger_def perform_def by simp

theorem updateReactions_skips_addition_when_removal_fails_witness:
  "reactions_remove unmarked_world (trace demo_state) (js ''beachball'') (msg_ts demo_message)
     (channel_id demo_event) = Inl no_reaction_error \<and>
   updateReactions unmarked_world demo_event demo_message True demo_state =
     (Inr (),
      demo_state\<lparr>trace := trace demo_state @
         [ReactionsRemove (js ''beachball'') (msg_ts demo_message) (channel_id demo_event),
          Log LError [LStr (js ''Failed to update reactions:''),
                      LStr (exn_message no_reaction_error)]]\<rparr>)"
proof -
  have rejected: "reactions_remove unmarked_world (trace demo_state) (js ''beachball'')
     (msg_ts demo_message) (channel_id demo_event) = Inl no_reaction_error"
    by (simp add: unmarked_world_def)
  from updateReactions_skips_addition_when_removal_fails [OF rejected] rejected
  show ?thesis by simp
qed

end
